theory Spec2Isabelle
  imports Main
begin

section \<open>The environment of validate\_bot.py\<close>

text \<open>
  The script looks at three things outside itself: the working directory (which paths
  exist, and what a file holds), whether the working directory accepts a new entry, and
  what happens when a library is imported. Everything it does to them is written into
  a trace, in order, so that "was attempted", "was not opened" and "nothing was written"
  are statements about the trace.
\<close>

datatype exn =
    ImportError
  | IsADirectoryError
  | FileNotFoundError
  | FileExistsError
  | PermissionError
  | AttributeError
  | RuntimeError

datatype node = File string | Dir

text \<open>
  What \<^verbatim>\<open>import name\<close> does: the module object (of which only the attribute
  \<^verbatim>\<open>__version__\<close> is ever read, and it may be missing), or the exception raised.
  \<^verbatim>\<open>ModuleNotFoundError\<close> is a subclass of \<^verbatim>\<open>ImportError\<close> and is
  counted as such.
\<close>

datatype import_outcome = Loaded "string option" | Raises exn

datatype event =
    Print string
  | Exists string
  | Open string
  | Mkdir string
  | Import string

record state =
  fs :: "string \<Rightarrow> node option"
  writable :: bool
  modules :: "string \<Rightarrow> import_outcome"
  trace :: "event list"

text \<open>A new process starts with an empty trace over whatever the last one left on disk.\<close>

definition fresh :: "state \<Rightarrow> state" where
  "fresh s = s\<lparr>trace := []\<rparr>"

definition log :: "event \<Rightarrow> state \<Rightarrow> state" where
  "log e s = s\<lparr>trace := trace s @ [e]\<rparr>"

definition print :: "string \<Rightarrow> state \<Rightarrow> state" where
  "print line s = log (Print line) s"

text \<open>\<^verbatim>\<open>Path(p).exists()\<close>\<close>

definition path_exists :: "string \<Rightarrow> state \<Rightarrow> bool \<times> state" where
  "path_exists p s = (fs s p \<noteq> None, log (Exists p) s)"

text \<open>
  \<^verbatim>\<open>with open(p, 'r') as f: content = f.read()\<close>. Opening a directory raises; a
  regular file is taken to be readable, and \<open>File\<close> holds its text as decoded.
\<close>

definition open_read :: "string \<Rightarrow> state \<Rightarrow> (exn + string) \<times> state" where
  "open_read p s =
     (case fs s p of
        None \<Rightarrow> (Inl FileNotFoundError, log (Open p) s)
      | Some Dir \<Rightarrow> (Inl IsADirectoryError, log (Open p) s)
      | Some (File content) \<Rightarrow> (Inr content, log (Open p) s))"

text \<open>
  \<^verbatim>\<open>Path(p).mkdir()\<close>, for a path directly under the working directory: it raises
  when the path exists already, and when the directory does not accept a new entry.
\<close>

definition mkdir :: "string \<Rightarrow> state \<Rightarrow> (exn + unit) \<times> state" where
  "mkdir p s =
     (if fs s p \<noteq> None then (Inl FileExistsError, log (Mkdir p) s)
      else if \<not> writable s then (Inl PermissionError, log (Mkdir p) s)
      else (Inr (), log (Mkdir p) (s\<lparr>fs := (fs s)(p \<mapsto> Dir)\<rparr>)))"

text \<open>\<^verbatim>\<open>import name\<close>\<close>

definition import_module :: "string \<Rightarrow> state \<Rightarrow> (exn + string option) \<times> state" where
  "import_module name s =
     (case modules s name of
        Raises e \<Rightarrow> (Inl e, log (Import name) s)
      | Loaded v \<Rightarrow> (Inr v, log (Import name) s))"

text \<open>\<^verbatim>\<open>commands_path / cmd_file\<close>\<close>

definition path_join :: "string \<Rightarrow> string \<Rightarrow> string" where
  "path_join d f = d @ ''/'' @ f"

subsection \<open>Strings\<close>

text \<open>
  Printed text is the UTF-8 byte sequence that reaches standard output. The pictographs
  of the source are named after their code points.
\<close>

definition nl :: string where
  "nl = [CHR 0x0A]"

definition cross_mark :: string where \<comment> \<open>U+274C\<close>
  "cross_mark = [CHR 0xE2, CHR 0x9D, CHR 0x8C]"

definition check_mark :: string where \<comment> \<open>U+2705\<close>
  "check_mark = [CHR 0xE2, CHR 0x9C, CHR 0x85]"

definition warning_sign :: string where \<comment> \<open>U+26A0 U+FE0F\<close>
  "warning_sign = [CHR 0xE2, CHR 0x9A, CHR 0xA0, CHR 0xEF, CHR 0xB8, CHR 0x8F]"

definition file_folder :: string where \<comment> \<open>U+1F4C1\<close>
  "file_folder = [CHR 0xF0, CHR 0x9F, CHR 0x93, CHR 0x81]"

definition open_file_folder :: string where \<comment> \<open>U+1F4C2\<close>
  "open_file_folder = [CHR 0xF0, CHR 0x9F, CHR 0x93, CHR 0x82]"

definition memo :: string where \<comment> \<open>U+1F4DD\<close>
  "memo = [CHR 0xF0, CHR 0x9F, CHR 0x93, CHR 0x9D]"

definition package :: string where \<comment> \<open>U+1F4E6\<close>
  "package = [CHR 0xF0, CHR 0x9F, CHR 0x93, CHR 0xA6]"

definition floppy_disk :: string where \<comment> \<open>U+1F4BE\<close>
  "floppy_disk = [CHR 0xF0, CHR 0x9F, CHR 0x92, CHR 0xBE]"

definition books :: string where \<comment> \<open>U+1F4DA\<close>
  "books = [CHR 0xF0, CHR 0x9F, CHR 0x93, CHR 0x9A]"

definition new_moon :: string where \<comment> \<open>U+1F311\<close>
  "new_moon = [CHR 0xF0, CHR 0x9F, CHR 0x8C, CHR 0x91]"

definition bar_chart :: string where \<comment> \<open>U+1F4CA\<close>
  "bar_chart = [CHR 0xF0, CHR 0x9F, CHR 0x93, CHR 0x8A]"

definition rocket :: string where \<comment> \<open>U+1F680\<close>
  "rocket = [CHR 0xF0, CHR 0x9F, CHR 0x9A, CHR 0x80]"

text \<open>\<^verbatim>\<open>"=" * 60\<close>\<close>

definition rule60 :: string where
  "rule60 = replicate 60 CHR ''=''"

text \<open>\<^verbatim>\<open>needle in haystack\<close> on strings: the needle occurs as a contiguous run.\<close>

fun starts_with :: "string \<Rightarrow> string \<Rightarrow> bool" where
  "starts_with [] hay = True"
| "starts_with (n # ns) [] = False"
| "starts_with (n # ns) (h # hs) = (n = h \<and> starts_with ns hs)"

fun str_in :: "string \<Rightarrow> string \<Rightarrow> bool" where
  "str_in needle [] = (needle = [])"
| "str_in needle (h # hs) = (starts_with needle (h # hs) \<or> str_in needle hs)"

text \<open>\<^verbatim>\<open>sep.join(items)\<close>\<close>

fun join :: "string \<Rightarrow> string list \<Rightarrow> string" where
  "join sep [] = []"
| "join sep [x] = x"
| "join sep (x # y # ys) = x @ sep @ join sep (y # ys)"

section \<open>The five checks\<close>

subsection \<open>check\_env\_file\<close>

definition required_vars :: "string list" where
  "required_vars = [''DISCORD_TOKEN'', ''OWNER_ID'', ''PREFIX'']"

text \<open>The loop of lines 29 to 31, with \<open>missing\<close> as its accumulator.\<close>

fun find_missing :: "string list \<Rightarrow> string \<Rightarrow> string list \<Rightarrow> string list" where
  "find_missing [] content missing = missing"
| "find_missing (var # vars) content missing =
     find_missing vars content (if \<not> str_in var content then missing @ [var] else missing)"

definition env_not_found :: string where
  "env_not_found = ''   '' @ cross_mark @ '' .env file not found!''"

definition missing_variables :: "string list \<Rightarrow> string" where
  "missing_variables missing =
     ''   '' @ cross_mark @ '' Missing variables: '' @ join '', '' missing"

definition check_env_file :: "state \<Rightarrow> (exn + bool) \<times> state" where
  "check_env_file s0 =
     (let s1 = print (nl @ file_folder @ '' Checking .env file...'') s0;
          env_path = ''.env'';
          (found, s2) = path_exists env_path s1
      in if \<not> found then
           (let s3 = print env_not_found s2;
                s4 = print (''   '' @ memo @ '' Create .env with:'') s3;
                s5 = print ''      DISCORD_TOKEN=your_token_here'' s4;
                s6 = print ''      OWNER_ID=your_discord_id'' s5;
                s7 = print ''      PREFIX=!'' s6
            in (Inr False, s7))
         else
           (case open_read env_path s2 of
              (Inl e, s3) \<Rightarrow> (Inl e, s3)
            | (Inr content, s3) \<Rightarrow>
                (let missing = find_missing required_vars content []
                 in if missing \<noteq> [] then
                      (Inr False, print (missing_variables missing) s3)
                    else
                      (Inr True,
                       print (''   '' @ check_mark @ '' .env file is properly configured'') s3))))"

subsection \<open>check\_required\_files\<close>

definition required_files :: "string list" where
  "required_files = [''bot.py'', ''data_manager.py'', ''requirements.txt'']"

text \<open>The loop of lines 52 to 57, with \<open>all_exist\<close> as its accumulator.\<close>

fun scan_files :: "string list \<Rightarrow> bool \<Rightarrow> state \<Rightarrow> bool \<times> state" where
  "scan_files [] all_exist s = (all_exist, s)"
| "scan_files (file # rest) all_exist s =
     (let (found, s1) = path_exists file s
      in if \<not> found then
           scan_files rest False (print (''   '' @ cross_mark @ '' Missing: '' @ file) s1)
         else
           scan_files rest all_exist (print (''   '' @ check_mark @ '' Found: '' @ file) s1))"

definition check_required_files :: "state \<Rightarrow> (exn + bool) \<times> state" where
  "check_required_files s0 =
     (let s1 = print (nl @ open_file_folder @ '' Checking required files...'') s0;
          (all_exist, s2) = scan_files required_files True s1
      in (Inr all_exist, s2))"

subsection \<open>check\_commands\_folder\<close>

definition required_commands :: "string list" where
  "required_commands =
     [''economy.py'', ''teams.py'', ''marketplace.py'', ''moderation.py'',
      ''server_build.py'', ''help_admin.py'']"

text \<open>The loop of lines 81 to 87.\<close>

fun scan_commands :: "string \<Rightarrow> string list \<Rightarrow> bool \<Rightarrow> state \<Rightarrow> bool \<times> state" where
  "scan_commands commands_path [] all_exist s = (all_exist, s)"
| "scan_commands commands_path (cmd_file # rest) all_exist s =
     (let cmd_path = path_join commands_path cmd_file;
          (found, s1) = path_exists cmd_path s
      in if \<not> found then
           scan_commands commands_path rest False
             (print (''   '' @ cross_mark @ '' Missing: commands/'' @ cmd_file) s1)
         else
           scan_commands commands_path rest all_exist
             (print (''   '' @ check_mark @ '' Found: commands/'' @ cmd_file) s1))"

definition check_commands_folder :: "state \<Rightarrow> (exn + bool) \<times> state" where
  "check_commands_folder s0 =
     (let s1 = print (nl @ package @ '' Checking commands folder...'') s0;
          commands_path = ''commands'';
          (found, s2) = path_exists commands_path s1
      in if \<not> found then
           (Inr False, print (''   '' @ cross_mark @ '' commands/ folder not found!'') s2)
         else
           (let (all_exist, s3) = scan_commands commands_path required_commands True s2
            in (Inr all_exist, s3)))"

subsection \<open>check\_data\_folder\<close>

definition check_data_folder :: "state \<Rightarrow> (exn + bool) \<times> state" where
  "check_data_folder s0 =
     (let s1 = print (nl @ floppy_disk @ '' Checking data folder...'') s0;
          data_path = ''data'';
          (found, s2) = path_exists data_path s1
      in if \<not> found then
           (let s3 = print (''   '' @ warning_sign @ ''  data/ folder not found, creating...'') s2
            in case mkdir data_path s3 of
                 (Inl e, s4) \<Rightarrow> (Inl e, s4)
               | (Inr _, s4) \<Rightarrow>
                   (Inr True, print (''   '' @ check_mark @ '' Created data/ folder'') s4))
         else
           (Inr True, print (''   '' @ check_mark @ '' data/ folder exists'') s2))"

subsection \<open>check\_dependencies\<close>

text \<open>
  Each \<^verbatim>\<open>try\<close> block catches \<^verbatim>\<open>ImportError\<close> only and returns from the function
  in its handler. The first block also reads \<^verbatim>\<open>discord.__version__\<close> inside the
  \<^verbatim>\<open>try\<close>; a module without that attribute raises \<^verbatim>\<open>AttributeError\<close>, which the
  handler does not catch.
\<close>

definition check_dependencies :: "state \<Rightarrow> (exn + bool) \<times> state" where
  "check_dependencies s0 =
     (let s1 = print (nl @ books @ '' Checking Python dependencies...'') s0
      in case import_module ''discord'' s1 of
           (Inl e, s2) \<Rightarrow>
             if e = ImportError then
               (Inr False, print (''   '' @ cross_mark @ '' discord.py not installed'') s2)
             else (Inl e, s2)
         | (Inr None, s2) \<Rightarrow> (Inl AttributeError, s2)
         | (Inr (Some version), s2) \<Rightarrow>
             (let s3 = print (''   '' @ check_mark @ '' discord.py ('' @ version @ '')'') s2
              in case import_module ''dotenv'' s3 of
                   (Inl e, s4) \<Rightarrow>
                     if e = ImportError then
                       (Inr False,
                        print (''   '' @ cross_mark @ '' python-dotenv not installed'') s4)
                     else (Inl e, s4)
                 | (Inr _, s4) \<Rightarrow>
                     (let s5 = print (''   '' @ check_mark @ '' python-dotenv installed'') s4
                      in case import_module ''aiofiles'' s5 of
                           (Inl e, s6) \<Rightarrow>
                             if e = ImportError then
                               (Inr False,
                                print (''   '' @ cross_mark @ '' aiofiles not installed'') s6)
                             else (Inl e, s6)
                         | (Inr _, s6) \<Rightarrow>
                             (Inr True,
                              print (''   '' @ check_mark @ '' aiofiles installed'') s6))))"

section \<open>main\<close>

type_synonym check = "state \<Rightarrow> (exn + bool) \<times> state"

definition checks :: "(string \<times> check) list" where
  "checks =
     [(''Environment File'', check_env_file),
      (''Required Files'', check_required_files),
      (''Commands Modules'', check_commands_folder),
      (''Data Folder'', check_data_folder),
      (''Dependencies'', check_dependencies)]"

text \<open>
  The loop of lines 150 to 152. An exception raised by a check is not caught anywhere,
  so it ends the loop and the run.
\<close>

fun run_checks ::
  "(string \<times> check) list \<Rightarrow> (string \<times> bool) list \<Rightarrow> state
     \<Rightarrow> (exn + (string \<times> bool) list) \<times> state" where
  "run_checks [] results s = (Inr results, s)"
| "run_checks ((name, check_func) # rest) results s =
     (case check_func s of
        (Inl e, s1) \<Rightarrow> (Inl e, s1)
      | (Inr result, s1) \<Rightarrow> run_checks rest (results @ [(name, result)]) s1)"

text \<open>The loop of lines 160 to 164, with \<open>all_passed\<close> as its accumulator.\<close>

fun summarise :: "(string \<times> bool) list \<Rightarrow> bool \<Rightarrow> state \<Rightarrow> bool \<times> state" where
  "summarise [] all_passed s = (all_passed, s)"
| "summarise ((name, result) # rest) all_passed s =
     (let status = (if result then check_mark @ '' PASS'' else cross_mark @ '' FAIL'');
          s1 = print (status @ '' - '' @ name) s
      in summarise rest (if \<not> result then False else all_passed) s1)"

definition all_passed_line :: string where
  "all_passed_line = check_mark @ '' ALL CHECKS PASSED! Bot is ready to run.''"

definition start_bot_line :: string where
  "start_bot_line = nl @ rocket @ '' Start the bot with: python bot.py''"

definition some_failed_line :: string where
  "some_failed_line =
     cross_mark @ '' SOME CHECKS FAILED! Fix the issues above before running.''"

definition install_line :: string where
  "install_line = nl @ memo @ '' Install dependencies: pip install -r requirements.txt''"

text \<open>Lines 137 to 152: the banner and the checks.\<close>

definition collect_results :: "state \<Rightarrow> (exn + (string \<times> bool) list) \<times> state" where
  "collect_results s0 =
     (let s1 = print rule60 s0;
          s2 = print (new_moon @ '' ATOMIC DARK EMPIRE BOT - VALIDATION'') s1;
          s3 = print rule60 s2
      in run_checks checks [] s3)"

text \<open>Lines 155 to 175: the summary. The value of \<open>all_passed\<close> is returned to be
  reasoned about; the source only prints.\<close>

definition report :: "(string \<times> bool) list \<Rightarrow> state \<Rightarrow> bool \<times> state" where
  "report results s0 =
     (let s1 = print (nl @ rule60) s0;
          s2 = print (bar_chart @ '' VALIDATION SUMMARY'') s1;
          s3 = print rule60 s2;
          (all_passed, s4) = summarise results True s3;
          s5 = print rule60 s4;
          s6 = (if all_passed then print start_bot_line (print all_passed_line s5)
                else print install_line (print some_failed_line s5))
      in (all_passed, print rule60 s6))"

definition main :: "state \<Rightarrow> (exn + unit) \<times> state" where
  "main s0 =
     (case collect_results s0 of
        (Inl e, s1) \<Rightarrow> (Inl e, s1)
      | (Inr results, s1) \<Rightarrow> (Inr (), snd (report results s1)))"

text \<open>
  \<^verbatim>\<open>if __name__ == "__main__": main()\<close>: the interpreter ends with status 0 when
  \<open>main\<close> returns and with status 1 after an uncaught exception. Nothing in the script
  calls \<^verbatim>\<open>sys.exit\<close>.
\<close>

definition exit_status :: "state \<Rightarrow> nat" where
  "exit_status s = (case fst (main s) of Inl e \<Rightarrow> 1 | Inr _ \<Rightarrow> 0)"

text \<open>
  The value of \<open>all_passed\<close> when \<open>main\<close> reaches line 168, or the exception that
  ended the run before.
\<close>

definition verdict :: "state \<Rightarrow> exn + bool" where
  "verdict s =
     (case collect_results s of
        (Inl e, s1) \<Rightarrow> Inl e
      | (Inr results, s1) \<Rightarrow> Inr (fst (report results s1)))"

text \<open>What a computation adds to the trace.\<close>

definition emitted :: "(state \<Rightarrow> 'a \<times> state) \<Rightarrow> state \<Rightarrow> event list" where
  "emitted f s = drop (length (trace s)) (trace (snd (f s)))"

text \<open>The paths whose existence was tested, and the libraries whose import was attempted.\<close>

definition tested_paths :: "event list \<Rightarrow> string list" where
  "tested_paths evs = concat (map (\<lambda>e. case e of Exists p \<Rightarrow> [p] | _ \<Rightarrow> []) evs)"

definition imports_attempted :: "event list \<Rightarrow> string list" where
  "imports_attempted evs = concat (map (\<lambda>e. case e of Import n \<Rightarrow> [n] | _ \<Rightarrow> []) evs)"

text \<open>The line each check prints first, by the name \<open>main\<close> gives the check.\<close>

definition check_header :: "string \<Rightarrow> string" where
  "check_header n =
     (if n = ''Environment File'' then nl @ file_folder @ '' Checking .env file...''
      else if n = ''Required Files'' then nl @ open_file_folder @ '' Checking required files...''
      else if n = ''Commands Modules'' then nl @ package @ '' Checking commands folder...''
      else if n = ''Data Folder'' then nl @ floppy_disk @ '' Checking data folder...''
      else nl @ books @ '' Checking Python dependencies...'')"

text \<open>
  The state \<open>t\<close> that a later run may find after a run from \<open>s\<close>: the same libraries
  and the same entries, except that \<^verbatim>\<open>data\<close> may have appeared where \<open>s\<close> had it or
  could create it. The trace is not compared.
\<close>

definition later_world :: "state \<Rightarrow> state \<Rightarrow> bool" where
  "later_world s t \<longleftrightarrow>
     modules t = modules s \<and>
     (\<forall>p. p \<noteq> ''data'' \<longrightarrow> fs t p = fs s p) \<and>
     (fs t ''data'' = fs s ''data'' \<and> writable t = writable s \<or>
      fs t ''data'' \<noteq> None \<and> (fs s ''data'' \<noteq> None \<or> writable s))"

section \<open>Basic facts\<close>

lemma fs_log [simp]: "fs (log e s) = fs s"
  and writable_log [simp]: "writable (log e s) = writable s"
  and modules_log [simp]: "modules (log e s) = modules s"
  and trace_log [simp]: "trace (log e s) = trace s @ [e]"
  by (simp_all add: log_def)

lemma fs_print [simp]: "fs (print l s) = fs s"
  and writable_print [simp]: "writable (print l s) = writable s"
  and modules_print [simp]: "modules (print l s) = modules s"
  and trace_print [simp]: "trace (print l s) = trace s @ [Print l]"
  by (simp_all add: print_def)

lemma emitted_eq: "trace (snd (f s)) = trace s @ evs \<Longrightarrow> emitted f s = evs"
  by (simp add: emitted_def)

subsection \<open>The substring test is the substring relation\<close>

lemma starts_with_iff: "starts_with needle hay \<longleftrightarrow> (\<exists>post. hay = needle @ post)"
  by (induction needle hay rule: starts_with.induct) auto

lemma str_in_iff: "str_in needle hay \<longleftrightarrow> (\<exists>pre post. hay = pre @ needle @ post)"
proof (induction hay)
  case Nil
  show ?case by auto
next
  case (Cons h hs)
  have "(\<exists>pre post. h # hs = pre @ needle @ post) \<longleftrightarrow>
        (\<exists>post. h # hs = needle @ post) \<or> (\<exists>pre post. hs = pre @ needle @ post)"
    by (auto simp: Cons_eq_append_conv)
  with Cons show ?case
    by (simp only: str_in.simps starts_with_iff)
qed

subsection \<open>check\_env\_file, case by case\<close>

lemma find_missing_filter:
  "find_missing vars content missing = missing @ filter (\<lambda>v. \<not> str_in v content) vars"
  by (induction vars arbitrary: missing) auto

lemma missing_cases:
  "filter (\<lambda>v. \<not> str_in v content) required_vars =
     (if str_in ''DISCORD_TOKEN'' content then [] else [''DISCORD_TOKEN'']) @
     (if str_in ''OWNER_ID'' content then [] else [''OWNER_ID'']) @
     (if str_in ''PREFIX'' content then [] else [''PREFIX''])"
  by (simp add: required_vars_def)

lemma env_absent:
  assumes "fs s ''.env'' = None"
  shows "check_env_file s =
    (Inr False, s\<lparr>trace := trace s @
       [Print (nl @ file_folder @ '' Checking .env file...''), Exists ''.env'',
        Print env_not_found, Print (''   '' @ memo @ '' Create .env with:''),
        Print ''      DISCORD_TOKEN=your_token_here'',
        Print ''      OWNER_ID=your_discord_id'',
        Print ''      PREFIX=!'']\<rparr>)"
  using assms by (simp add: check_env_file_def path_exists_def print_def log_def Let_def)

lemma env_dir:
  assumes "fs s ''.env'' = Some Dir"
  shows "check_env_file s =
    (Inl IsADirectoryError, s\<lparr>trace := trace s @
       [Print (nl @ file_folder @ '' Checking .env file...''), Exists ''.env'',
        Open ''.env'']\<rparr>)"
  using assms
  by (simp add: check_env_file_def path_exists_def open_read_def print_def log_def Let_def)

lemma env_file:
  assumes "fs s ''.env'' = Some (File content)"
  shows "check_env_file s =
    (let missing = filter (\<lambda>v. \<not> str_in v content) required_vars
     in (Inr (missing = []), s\<lparr>trace := trace s @
       [Print (nl @ file_folder @ '' Checking .env file...''), Exists ''.env'', Open ''.env'',
        Print (if missing = []
               then ''   '' @ check_mark @ '' .env file is properly configured''
               else missing_variables missing)]\<rparr>))"
  using assms
  by (simp add: check_env_file_def path_exists_def open_read_def print_def log_def Let_def
        find_missing_filter)

lemma emitted_env_absent:
  "fs s ''.env'' = None \<Longrightarrow> emitted check_env_file s =
       [Print (nl @ file_folder @ '' Checking .env file...''), Exists ''.env'',
        Print env_not_found, Print (''   '' @ memo @ '' Create .env with:''),
        Print ''      DISCORD_TOKEN=your_token_here'',
        Print ''      OWNER_ID=your_discord_id'',
        Print ''      PREFIX=!'']"
  by (rule emitted_eq) (simp add: env_absent)

lemma emitted_env_dir:
  "fs s ''.env'' = Some Dir \<Longrightarrow> emitted check_env_file s =
       [Print (nl @ file_folder @ '' Checking .env file...''), Exists ''.env'', Open ''.env'']"
  by (rule emitted_eq) (simp add: env_dir)

lemma emitted_env_file:
  "fs s ''.env'' = Some (File content) \<Longrightarrow> emitted check_env_file s =
       [Print (nl @ file_folder @ '' Checking .env file...''), Exists ''.env'', Open ''.env'',
        Print (if filter (\<lambda>v. \<not> str_in v content) required_vars = []
               then ''   '' @ check_mark @ '' .env file is properly configured''
               else missing_variables (filter (\<lambda>v. \<not> str_in v content) required_vars))]"
  by (rule emitted_eq) (simp add: env_file Let_def)




lemmas env_line_defs = missing_variables_def env_not_found_def cross_mark_def check_mark_def
  memo_def nl_def file_folder_def

section \<open>The environment-file check\<close>

text \<open>
  Claim C3. Whatever the text of an existing \<^verbatim>\<open>.env\<close> file, \<open>check_env_file\<close>
  returns true exactly when each of \<^verbatim>\<open>DISCORD_TOKEN\<close>, \<^verbatim>\<open>OWNER_ID\<close> and
  \<^verbatim>\<open>PREFIX\<close> occurs somewhere in it as a contiguous run of characters, with any
  text before and after; and it returns false when there is no \<^verbatim>\<open>.env\<close>.
\<close>

theorem check_env_file_result:
  "(fs s ''.env'' = Some (File content) \<longrightarrow>
      fst (check_env_file s) =
        Inr ((\<exists>pre post. content = pre @ ''DISCORD_TOKEN'' @ post) \<and>
             (\<exists>pre post. content = pre @ ''OWNER_ID'' @ post) \<and>
             (\<exists>pre post. content = pre @ ''PREFIX'' @ post))) \<and>
   (fs s ''.env'' = None \<longrightarrow> fst (check_env_file s) = Inr False)"
proof (intro conjI impI)
  assume f: "fs s ''.env'' = Some (File content)"
  have "fst (check_env_file s) =
          Inr (str_in ''DISCORD_TOKEN'' content \<and> str_in ''OWNER_ID'' content \<and>
               str_in ''PREFIX'' content)"
    by (simp add: env_file [OF f] Let_def missing_cases)
  then show "fst (check_env_file s) =
        Inr ((\<exists>pre post. content = pre @ ''DISCORD_TOKEN'' @ post) \<and>
             (\<exists>pre post. content = pre @ ''OWNER_ID'' @ post) \<and>
             (\<exists>pre post. content = pre @ ''PREFIX'' @ post))"
    by (simp only: str_in_iff)
next
  assume "fs s ''.env'' = None"
  then show "fst (check_env_file s) = Inr False"
    by (simp add: env_absent)
qed

text \<open>
  At a file that holds the three names out of order, inside a comment and inside longer
  words, the check passes; with one name misspelt it fails; with no file it fails.
\<close>

theorem check_env_file_result_witness:
  "fst (check_env_file
     \<lparr>fs = [''.env'' \<mapsto> File ''# MY_PREFIXES=? OWNER_IDS xDISCORD_TOKENx''],
      writable = False, modules = (\<lambda>_. Raises ImportError), trace = []\<rparr>) = Inr True \<and>
   fst (check_env_file
     \<lparr>fs = [''.env'' \<mapsto> File ''DISCORD_TOKEN=a OWNER-ID=1 PREFIX=!''],
      writable = False, modules = (\<lambda>_. Raises ImportError), trace = []\<rparr>) = Inr False \<and>
   fst (check_env_file
     \<lparr>fs = Map.empty, writable = False, modules = (\<lambda>_. Raises ImportError),
      trace = []\<rparr>) = Inr False"
  using
    check_env_file_result
      [of "\<lparr>fs = [''.env'' \<mapsto> File ''# MY_PREFIXES=? OWNER_IDS xDISCORD_TOKENx''],
             writable = False, modules = (\<lambda>_. Raises ImportError), trace = []\<rparr>"
          "''# MY_PREFIXES=? OWNER_IDS xDISCORD_TOKENx''"]
    check_env_file_result
      [of "\<lparr>fs = [''.env'' \<mapsto> File ''DISCORD_TOKEN=a OWNER-ID=1 PREFIX=!''],
             writable = False, modules = (\<lambda>_. Raises ImportError), trace = []\<rparr>"
          "''DISCORD_TOKEN=a OWNER-ID=1 PREFIX=!''"]
    check_env_file_result
      [of "\<lparr>fs = Map.empty, writable = False, modules = (\<lambda>_. Raises ImportError),
             trace = []\<rparr>" "[]"]
  unfolding str_in_iff [symmetric]
  by simp



text \<open>
  Claim C10. With no \<^verbatim>\<open>.env\<close>, \<open>check_env_file\<close> returns false and opens nothing.
  In no state does one call print both the file-not-found line and a missing-variables
  line.
\<close>

theorem check_env_file_modes_exclusive:
  "(fs s ''.env'' = None \<longrightarrow>
      fst (check_env_file s) = Inr False \<and>
      (\<forall>p. Open p \<notin> set (emitted check_env_file s))) \<and>
   \<not> (Print env_not_found \<in> set (emitted check_env_file s) \<and>
      (\<exists>missing. Print (missing_variables missing) \<in> set (emitted check_env_file s)))"
proof (intro conjI impI)
  assume a: "fs s ''.env'' = None"
  show "fst (check_env_file s) = Inr False"
    by (simp add: env_absent [OF a])
  show "\<forall>p. Open p \<notin> set (emitted check_env_file s)"
    by (simp add: emitted_env_absent [OF a])
next
  show "\<not> (Print env_not_found \<in> set (emitted check_env_file s) \<and>
      (\<exists>missing. Print (missing_variables missing) \<in> set (emitted check_env_file s)))"
  proof (cases "fs s ''.env''")
    case None
    then show ?thesis
      by (simp add: emitted_env_absent env_line_defs)
  next
    case (Some n)
    then show ?thesis
      by (cases n) (simp_all add: emitted_env_file emitted_env_dir env_line_defs)
  qed
qed

theorem check_env_file_modes_exclusive_witness:
  "fst (check_env_file
     \<lparr>fs = [''bot.py'' \<mapsto> File ''import discord''], writable = True,
      modules = (\<lambda>_. Loaded None), trace = []\<rparr>) = Inr False \<and>
   Open ''.env'' \<notin> set (emitted check_env_file
     \<lparr>fs = [''bot.py'' \<mapsto> File ''import discord''], writable = True,
      modules = (\<lambda>_. Loaded None), trace = []\<rparr>)"
proof -
  let ?s = "\<lparr>fs = [''bot.py'' \<mapsto> File ''import discord''], writable = True,
      modules = (\<lambda>_. Loaded None), trace = []\<rparr>"
  have a: "fs ?s ''.env'' = None"
    by simp
  from check_env_file_modes_exclusive [of ?s] a show ?thesis
    by blast
qed

section \<open>The other checks, case by case\<close>

lemma scan_files_eq:
  "scan_files files all_exist s =
     (all_exist \<and> (\<forall>f \<in> set files. fs s f \<noteq> None),
      s\<lparr>trace := trace s @ concat (map (\<lambda>f.
          [Exists f,
           Print (if fs s f = None then ''   '' @ cross_mark @ '' Missing: '' @ f
                  else ''   '' @ check_mark @ '' Found: '' @ f)]) files)\<rparr>)"
proof (induction files arbitrary: all_exist s)
  case Nil
  show ?case by simp
next
  case (Cons f files)
  show ?case
    by (auto simp: Cons path_exists_def print_def log_def)
qed

lemma scan_commands_eq:
  "scan_commands d files all_exist s =
     (all_exist \<and> (\<forall>f \<in> set files. fs s (path_join d f) \<noteq> None),
      s\<lparr>trace := trace s @ concat (map (\<lambda>f.
          [Exists (path_join d f),
           Print (if fs s (path_join d f) = None
                  then ''   '' @ cross_mark @ '' Missing: commands/'' @ f
                  else ''   '' @ check_mark @ '' Found: commands/'' @ f)]) files)\<rparr>)"
proof (induction files arbitrary: all_exist s)
  case Nil
  show ?case by simp
next
  case (Cons f files)
  show ?case
    by (auto simp: Cons path_exists_def print_def log_def Let_def)
qed

lemma required_files_eq:
  "check_required_files s =
     (Inr (\<forall>f \<in> set required_files. fs s f \<noteq> None),
      s\<lparr>trace := trace s @ Print (nl @ open_file_folder @ '' Checking required files...'') #
         concat (map (\<lambda>f.
          [Exists f,
           Print (if fs s f = None then ''   '' @ cross_mark @ '' Missing: '' @ f
                  else ''   '' @ check_mark @ '' Found: '' @ f)]) required_files)\<rparr>)"
  by (simp add: check_required_files_def scan_files_eq print_def log_def Let_def)

lemma commands_absent:
  "fs s ''commands'' = None \<Longrightarrow> check_commands_folder s =
     (Inr False, s\<lparr>trace := trace s @
        [Print (nl @ package @ '' Checking commands folder...''), Exists ''commands'',
         Print (''   '' @ cross_mark @ '' commands/ folder not found!'')]\<rparr>)"
  by (simp add: check_commands_folder_def path_exists_def print_def log_def Let_def)

lemma commands_present:
  "fs s ''commands'' \<noteq> None \<Longrightarrow> check_commands_folder s =
     (Inr (\<forall>f \<in> set required_commands. fs s (path_join ''commands'' f) \<noteq> None),
      s\<lparr>trace := trace s @
        Print (nl @ package @ '' Checking commands folder...'') # Exists ''commands'' #
        concat (map (\<lambda>f.
          [Exists (path_join ''commands'' f),
           Print (if fs s (path_join ''commands'' f) = None
                  then ''   '' @ cross_mark @ '' Missing: commands/'' @ f
                  else ''   '' @ check_mark @ '' Found: commands/'' @ f)]) required_commands)\<rparr>)"
  by (auto simp: check_commands_folder_def scan_commands_eq path_exists_def print_def log_def Let_def)

lemma data_present:
  "fs s ''data'' \<noteq> None \<Longrightarrow> check_data_folder s =
     (Inr True, s\<lparr>trace := trace s @
        [Print (nl @ floppy_disk @ '' Checking data folder...''), Exists ''data'',
         Print (''   '' @ check_mark @ '' data/ folder exists'')]\<rparr>)"
  by (auto simp: check_data_folder_def path_exists_def print_def log_def Let_def)

lemma data_created:
  "fs s ''data'' = None \<Longrightarrow> writable s \<Longrightarrow> check_data_folder s =
     (Inr True, s\<lparr>fs := (fs s)(''data'' \<mapsto> Dir), trace := trace s @
        [Print (nl @ floppy_disk @ '' Checking data folder...''), Exists ''data'',
         Print (''   '' @ warning_sign @ ''  data/ folder not found, creating...''),
         Mkdir ''data'',
         Print (''   '' @ check_mark @ '' Created data/ folder'')]\<rparr>)"
  by (simp add: check_data_folder_def path_exists_def mkdir_def print_def log_def Let_def)

lemma data_refused:
  "fs s ''data'' = None \<Longrightarrow> \<not> writable s \<Longrightarrow> check_data_folder s =
     (Inl PermissionError, s\<lparr>trace := trace s @
        [Print (nl @ floppy_disk @ '' Checking data folder...''), Exists ''data'',
         Print (''   '' @ warning_sign @ ''  data/ folder not found, creating...''),
         Mkdir ''data'']\<rparr>)"
  by (simp add: check_data_folder_def path_exists_def mkdir_def print_def log_def Let_def)

lemma tested_paths_simps [simp]:
  "tested_paths [] = []"
  "tested_paths (Exists p # evs) = p # tested_paths evs"
  "tested_paths (Print l # evs) = tested_paths evs"
  "tested_paths (Open p # evs) = tested_paths evs"
  "tested_paths (Mkdir p # evs) = tested_paths evs"
  "tested_paths (Import n # evs) = tested_paths evs"
  by (simp_all add: tested_paths_def)

lemma imports_attempted_simps [simp]:
  "imports_attempted [] = []"
  "imports_attempted (Import n # evs) = n # imports_attempted evs"
  "imports_attempted (Print l # evs) = imports_attempted evs"
  "imports_attempted (Open p # evs) = imports_attempted evs"
  "imports_attempted (Mkdir p # evs) = imports_attempted evs"
  "imports_attempted (Exists p # evs) = imports_attempted evs"
  by (simp_all add: imports_attempted_def)

lemma tested_paths_scan:
  "tested_paths (concat (map (\<lambda>f. [Exists (g f), Print (h f)]) files)) = map g files"
  by (induction files) simp_all


section \<open>The commands-folder check\<close>

text \<open>
  Claim C6. With no \<^verbatim>\<open>commands\<close> entry, \<open>check_commands_folder\<close> returns false
  and the only path whose existence it tests is \<^verbatim>\<open>commands\<close> itself. Otherwise it
  tests \<^verbatim>\<open>commands\<close> and then each of the six module files, in the order of the
  list and whatever the earlier tests gave, and returns whether all six exist.
\<close>

theorem check_commands_folder_tests:
  "(fs s ''commands'' = None \<longrightarrow>
      fst (check_commands_folder s) = Inr False \<and>
      tested_paths (emitted check_commands_folder s) = [''commands'']) \<and>
   (fs s ''commands'' \<noteq> None \<longrightarrow>
      fst (check_commands_folder s) =
        Inr (\<forall>f \<in> set required_commands. fs s (''commands/'' @ f) \<noteq> None) \<and>
      tested_paths (emitted check_commands_folder s) =
        ''commands'' # map (\<lambda>f. ''commands/'' @ f) required_commands)"
proof (intro conjI impI)
  assume a: "fs s ''commands'' = None"
  show "fst (check_commands_folder s) = Inr False"
    by (simp add: commands_absent [OF a])
  have "emitted check_commands_folder s =
        [Print (nl @ package @ '' Checking commands folder...''), Exists ''commands'',
         Print (''   '' @ cross_mark @ '' commands/ folder not found!'')]"
    by (rule emitted_eq) (simp add: commands_absent [OF a])
  then show "tested_paths (emitted check_commands_folder s) = [''commands'']"
    by simp
next
  assume p: "fs s ''commands'' \<noteq> None"
  show "fst (check_commands_folder s) =
        Inr (\<forall>f \<in> set required_commands. fs s (''commands/'' @ f) \<noteq> None)"
    by (simp add: commands_present [OF p] path_join_def)
  have "emitted check_commands_folder s =
        Print (nl @ package @ '' Checking commands folder...'') # Exists ''commands'' #
        concat (map (\<lambda>f.
          [Exists (path_join ''commands'' f),
           Print (if fs s (path_join ''commands'' f) = None
                  then ''   '' @ cross_mark @ '' Missing: commands/'' @ f
                  else ''   '' @ check_mark @ '' Found: commands/'' @ f)]) required_commands)"
    by (rule emitted_eq) (simp add: commands_present [OF p])
  then show "tested_paths (emitted check_commands_folder s) =
        ''commands'' # map (\<lambda>f. ''commands/'' @ f) required_commands"
    by (simp only: tested_paths_simps tested_paths_scan) (simp add: path_join_def)
qed


theorem check_commands_folder_tests_witness:
  "fst (check_commands_folder
     \<lparr>fs = Map.empty, writable = True, modules = (\<lambda>_. Raises ImportError), trace = []\<rparr>)
     = Inr False \<and>
   tested_paths (emitted check_commands_folder
     \<lparr>fs = Map.empty, writable = True, modules = (\<lambda>_. Raises ImportError), trace = []\<rparr>)
     = [''commands''] \<and>
   fst (check_commands_folder
     \<lparr>fs = [''commands'' \<mapsto> Dir, ''commands/teams.py'' \<mapsto> File ''''], writable = True,
      modules = (\<lambda>_. Raises ImportError), trace = []\<rparr>) = Inr False \<and>
   tested_paths (emitted check_commands_folder
     \<lparr>fs = [''commands'' \<mapsto> Dir, ''commands/teams.py'' \<mapsto> File ''''], writable = True,
      modules = (\<lambda>_. Raises ImportError), trace = []\<rparr>) =
     [''commands'', ''commands/economy.py'', ''commands/teams.py'',
      ''commands/marketplace.py'', ''commands/moderation.py'',
      ''commands/server_build.py'', ''commands/help_admin.py'']"
  using
    check_commands_folder_tests [of "\<lparr>fs = Map.empty, writable = True, modules = (\<lambda>_. Raises ImportError),
                  trace = []\<rparr>"]
    check_commands_folder_tests [of "\<lparr>fs = [''commands'' \<mapsto> Dir, ''commands/teams.py'' \<mapsto> File ''''],
                  writable = True, modules = (\<lambda>_. Raises ImportError), trace = []\<rparr>"]
  by (simp add: required_commands_def)


section \<open>The data-folder check\<close>

text \<open>
  Claim check_data_folder_self_healing, as the code has it. \<open>check_data_folder\<close> never returns false. With no
  \<^verbatim>\<open>data\<close> entry it attempts the creation; when the working directory accepts it,
  the entry is a directory afterwards and the result is true, and when it does not, the
  exception leaves the check and nothing is created. With \<^verbatim>\<open>data\<close> present the
  result is true, nothing is written and no creation is attempted. After a run that
  returned true, a second run returns true, attempts no creation and leaves the entries
  as they are.
\<close>

theorem check_data_folder_self_healing:
  "fst (check_data_folder s) \<noteq> Inr False \<and>
   (fs s ''data'' = None \<longrightarrow>
      Mkdir ''data'' \<in> set (emitted check_data_folder s) \<and>
      (if writable s
       then fst (check_data_folder s) = Inr True \<and>
            fs (snd (check_data_folder s)) = (fs s)(''data'' \<mapsto> Dir)
       else fst (check_data_folder s) = Inl PermissionError \<and>
            fs (snd (check_data_folder s)) = fs s)) \<and>
   (fs s ''data'' \<noteq> None \<longrightarrow>
      fst (check_data_folder s) = Inr True \<and>
      fs (snd (check_data_folder s)) = fs s \<and>
      (\<forall>p. Mkdir p \<notin> set (emitted check_data_folder s))) \<and>
   (fst (check_data_folder s) = Inr True \<longrightarrow>
      fst (check_data_folder (fresh (snd (check_data_folder s)))) = Inr True \<and>
      fs (snd (check_data_folder (fresh (snd (check_data_folder s))))) =
        fs (snd (check_data_folder s)) \<and>
      (\<forall>p. Mkdir p \<notin> set (emitted check_data_folder (fresh (snd (check_data_folder s))))))"
proof -
  have present: "fst (check_data_folder t) = Inr True \<and> fs (snd (check_data_folder t)) = fs t \<and>
      (\<forall>p. Mkdir p \<notin> set (emitted check_data_folder t))" if "fs t ''data'' \<noteq> None" for t
  proof -
    have "emitted check_data_folder t =
        [Print (nl @ floppy_disk @ '' Checking data folder...''), Exists ''data'',
         Print (''   '' @ check_mark @ '' data/ folder exists'')]"
      by (rule emitted_eq) (simp add: data_present [OF that])
    then show ?thesis
      by (simp add: data_present [OF that])
  qed
  have absent: "Mkdir ''data'' \<in> set (emitted check_data_folder s) \<and>
      (if writable s
       then fst (check_data_folder s) = Inr True \<and>
            fs (snd (check_data_folder s)) = (fs s)(''data'' \<mapsto> Dir)
       else fst (check_data_folder s) = Inl PermissionError \<and>
            fs (snd (check_data_folder s)) = fs s)" if a: "fs s ''data'' = None"
  proof (cases "writable s")
    case True
    have "emitted check_data_folder s =
        [Print (nl @ floppy_disk @ '' Checking data folder...''), Exists ''data'',
         Print (''   '' @ warning_sign @ ''  data/ folder not found, creating...''),
         Mkdir ''data'',
         Print (''   '' @ check_mark @ '' Created data/ folder'')]"
      by (rule emitted_eq) (simp add: data_created [OF a True])
    then show ?thesis
      using True by (simp add: data_created [OF a True])
  next
    case False
    have "emitted check_data_folder s =
        [Print (nl @ floppy_disk @ '' Checking data folder...''), Exists ''data'',
         Print (''   '' @ warning_sign @ ''  data/ folder not found, creating...''),
         Mkdir ''data'']"
      by (rule emitted_eq) (simp add: data_refused [OF a False])
    then show ?thesis
      using False by (simp add: data_refused [OF a False])
  qed
  have never: "fst (check_data_folder s) \<noteq> Inr False"
    using absent present [of s] by (cases "fs s ''data'' = None"; cases "writable s") auto
  have again: "fs (fresh (snd (check_data_folder s))) ''data'' \<noteq> None"
    if "fst (check_data_folder s) = Inr True"
    using that absent present [of s]
    by (cases "fs s ''data'' = None"; cases "writable s") (auto simp: fresh_def)
  have fs_fresh: "fs (fresh x) = fs x" for x
    by (simp add: fresh_def)
  show ?thesis
    using never absent present [of s] present [OF again]
    unfolding fs_fresh by blast
qed

theorem check_data_folder_self_healing_witness:
  "fst (check_data_folder
     \<lparr>fs = Map.empty, writable = True, modules = (\<lambda>_. Raises ImportError),
      trace = []\<rparr>) = Inr True \<and>
   fs (snd (check_data_folder
     \<lparr>fs = Map.empty, writable = True, modules = (\<lambda>_. Raises ImportError),
      trace = []\<rparr>)) ''data'' = Some Dir \<and>
   fst (check_data_folder (fresh (snd (check_data_folder
     \<lparr>fs = Map.empty, writable = True, modules = (\<lambda>_. Raises ImportError),
      trace = []\<rparr>)))) = Inr True \<and>
   Mkdir ''data'' \<notin> set (emitted check_data_folder (fresh (snd (check_data_folder
     \<lparr>fs = Map.empty, writable = True, modules = (\<lambda>_. Raises ImportError),
      trace = []\<rparr>)))) \<and>
   fst (check_data_folder
     \<lparr>fs = [''data'' \<mapsto> File ''x''], writable = False,
      modules = (\<lambda>_. Raises ImportError), trace = []\<rparr>) = Inr True \<and>
   Mkdir ''data'' \<notin> set (emitted check_data_folder
     \<lparr>fs = [''data'' \<mapsto> File ''x''], writable = False,
      modules = (\<lambda>_. Raises ImportError), trace = []\<rparr>)"
  using
    check_data_folder_self_healing [of "\<lparr>fs = Map.empty, writable = True, modules = (\<lambda>_. Raises ImportError),
               trace = []\<rparr>"]
    check_data_folder_self_healing [of "\<lparr>fs = [''data'' \<mapsto> File ''x''], writable = False,
               modules = (\<lambda>_. Raises ImportError), trace = []\<rparr>"]
  by simp


text \<open>
  Claim check_data_folder_self_healing as written says that an absent directory is created and true returned. In a
  working directory that refuses the new entry the check returns nothing: the
  \<^verbatim>\<open>PermissionError\<close> of \<^verbatim>\<open>mkdir\<close> propagates, and \<^verbatim>\<open>data\<close> is still absent.
\<close>

theorem check_data_folder_creation_refused:
  "fs \<lparr>fs = Map.empty, writable = False, modules = (\<lambda>_. Loaded (Some ''2.3.2'')),
        trace = []\<rparr> ''data'' = None \<and>
   fst (check_data_folder
     \<lparr>fs = Map.empty, writable = False, modules = (\<lambda>_. Loaded (Some ''2.3.2'')),
      trace = []\<rparr>) = Inl PermissionError \<and>
   fs (snd (check_data_folder
     \<lparr>fs = Map.empty, writable = False, modules = (\<lambda>_. Loaded (Some ''2.3.2'')),
      trace = []\<rparr>)) ''data'' = None"
  by (simp add: check_data_folder_def path_exists_def mkdir_def print_def log_def Let_def)


section \<open>The dependency check\<close>

text \<open>
  Claim check_dependencies_stops_at_first_failure, as the code has it. The imports are attempted in the order
  \<^verbatim>\<open>discord\<close>, \<^verbatim>\<open>dotenv\<close>, \<^verbatim>\<open>aiofiles\<close>, and the check stops at the first one
  that does not succeed: \<^verbatim>\<open>dotenv\<close> is attempted only after \<^verbatim>\<open>discord\<close> was
  imported and its version read, \<^verbatim>\<open>aiofiles\<close> only after \<^verbatim>\<open>dotenv\<close> was imported.
  The result is true exactly when all three succeed, and false exactly when the first
  one that does not succeed raised \<^verbatim>\<open>ImportError\<close>.
\<close>

theorem check_dependencies_stops_at_first_failure:
  "imports_attempted (emitted check_dependencies s) =
     (if \<not> (\<exists>v. modules s ''discord'' = Loaded (Some v)) then [''discord'']
      else if \<not> (\<exists>m. modules s ''dotenv'' = Loaded m) then [''discord'', ''dotenv'']
      else [''discord'', ''dotenv'', ''aiofiles'']) \<and>
   (fst (check_dependencies s) = Inr True \<longleftrightarrow>
      (\<exists>v. modules s ''discord'' = Loaded (Some v)) \<and>
      (\<exists>m. modules s ''dotenv'' = Loaded m) \<and>
      (\<exists>m. modules s ''aiofiles'' = Loaded m)) \<and>
   (fst (check_dependencies s) = Inr False \<longleftrightarrow>
      modules s ''discord'' = Raises ImportError \<or>
      (\<exists>v. modules s ''discord'' = Loaded (Some v)) \<and>
        (modules s ''dotenv'' = Raises ImportError \<or>
         (\<exists>m. modules s ''dotenv'' = Loaded m) \<and>
           modules s ''aiofiles'' = Raises ImportError))"
  by (auto simp: check_dependencies_def import_module_def emitted_def print_def log_def
        Let_def split: import_outcome.splits option.splits)

theorem check_dependencies_stops_at_first_failure_witness:
  "imports_attempted (emitted check_dependencies
     \<lparr>fs = Map.empty, writable = True, modules = (\<lambda>_. Loaded (Some ''2.3.2'')),
      trace = []\<rparr>) = [''discord'', ''dotenv'', ''aiofiles''] \<and>
   fst (check_dependencies
     \<lparr>fs = Map.empty, writable = True, modules = (\<lambda>_. Loaded (Some ''2.3.2'')),
      trace = []\<rparr>) = Inr True \<and>
   imports_attempted (emitted check_dependencies
     \<lparr>fs = Map.empty, writable = True,
      modules = (\<lambda>_. Loaded (Some ''2.3.2''))(''dotenv'' := Raises ImportError),
      trace = []\<rparr>) = [''discord'', ''dotenv''] \<and>
   fst (check_dependencies
     \<lparr>fs = Map.empty, writable = True,
      modules = (\<lambda>_. Loaded (Some ''2.3.2''))(''dotenv'' := Raises ImportError),
      trace = []\<rparr>) = Inr False"
  using
    check_dependencies_stops_at_first_failure
      [of "\<lparr>fs = Map.empty, writable = True, modules = (\<lambda>_. Loaded (Some ''2.3.2'')),
             trace = []\<rparr>"]
    check_dependencies_stops_at_first_failure
      [of "\<lparr>fs = Map.empty, writable = True,
             modules = (\<lambda>_. Loaded (Some ''2.3.2''))(''dotenv'' := Raises ImportError),
             trace = []\<rparr>"]
  by simp

text \<open>
  Claim check_dependencies_stops_at_first_failure as written says that every one of the three imports is attempted whether or
  not an earlier one failed. Here \<^verbatim>\<open>discord\<close> is not installed and the other two are:
  the check returns false from the first handler and neither \<^verbatim>\<open>dotenv\<close> nor
  \<^verbatim>\<open>aiofiles\<close> is attempted.
\<close>

theorem check_dependencies_later_imports_skipped:
  "fst (check_dependencies
     \<lparr>fs = Map.empty, writable = True,
      modules = (\<lambda>_. Loaded (Some ''2.3.2''))(''discord'' := Raises ImportError),
      trace = []\<rparr>) = Inr False \<and>
   Import ''dotenv'' \<notin> set (emitted check_dependencies
     \<lparr>fs = Map.empty, writable = True,
      modules = (\<lambda>_. Loaded (Some ''2.3.2''))(''discord'' := Raises ImportError),
      trace = []\<rparr>) \<and>
   Import ''aiofiles'' \<notin> set (emitted check_dependencies
     \<lparr>fs = Map.empty, writable = True,
      modules = (\<lambda>_. Loaded (Some ''2.3.2''))(''discord'' := Raises ImportError),
      trace = []\<rparr>)"
  by (simp add: check_dependencies_def import_module_def emitted_def print_def log_def
        Let_def)

section \<open>Runs compared\<close>

lemma later_world_trace [simp]:
  "later_world (s\<lparr>trace := a\<rparr>) t = later_world s t"
  "later_world s (t\<lparr>trace := b\<rparr>) = later_world s t"
  by (simp_all add: later_world_def)

lemma later_world_refl: "later_world s s"
  by (simp add: later_world_def)

lemma later_world_trans: "later_world a b \<Longrightarrow> later_world b c \<Longrightarrow> later_world a c"
  by (auto simp: later_world_def)

lemma later_world_fresh [simp]:
  "later_world s (fresh t) = later_world s t"
  by (simp add: fresh_def)

lemma env_cases:
  obtains (absent) "fs s ''.env'' = None"
  | (dir) "fs s ''.env'' = Some Dir"
  | (regular) content where "fs s ''.env'' = Some (File content)"
  by (cases "fs s ''.env''"; cases "the (fs s ''.env'')") auto

lemma env_later:
  assumes "later_world s t"
  shows "fst (check_env_file t) = fst (check_env_file s) \<and>
         later_world (snd (check_env_file s)) (snd (check_env_file t))"
proof -
  from assms have eq: "fs t ''.env'' = fs s ''.env''"
    by (simp add: later_world_def)
  show ?thesis
  proof (cases rule: env_cases [of s])
    case absent
    with eq assms show ?thesis by (simp add: env_absent)
  next
    case dir
    with eq assms show ?thesis by (simp add: env_dir)
  next
    case (regular content)
    with eq assms show ?thesis by (simp add: env_file Let_def)
  qed
qed

lemma env_self: "later_world s (snd (check_env_file s))"
  by (cases rule: env_cases [of s]) (simp_all add: env_absent env_dir env_file Let_def later_world_refl)

lemma files_later:
  assumes "later_world s t"
  shows "fst (check_required_files t) = fst (check_required_files s) \<and>
         later_world (snd (check_required_files s)) (snd (check_required_files t))"
  using assms by (simp add: required_files_eq) (simp add: later_world_def required_files_def)

lemma files_self: "later_world s (snd (check_required_files s))"
  by (simp add: required_files_eq later_world_refl)

lemma commands_later:
  assumes "later_world s t"
  shows "fst (check_commands_folder t) = fst (check_commands_folder s) \<and>
         later_world (snd (check_commands_folder s)) (snd (check_commands_folder t))"
proof -
  from assms have eq: "fs t ''commands'' = fs s ''commands''"
    and eqs: "\<And>f. fs t (path_join ''commands'' f) = fs s (path_join ''commands'' f)"
    by (simp_all add: later_world_def path_join_def)
  show ?thesis
  proof (cases "fs s ''commands'' = None")
    case True
    with eq assms show ?thesis by (simp add: commands_absent)
  next
    case False
    with eq have "fs t ''commands'' \<noteq> None" by simp
    with False assms eqs show ?thesis by (simp add: commands_present)
  qed
qed

lemma commands_self: "later_world s (snd (check_commands_folder s))"
  by (cases "fs s ''commands'' = None") (simp_all add: commands_absent commands_present later_world_refl)

lemma data_later:
  assumes "later_world s t"
  shows "fst (check_data_folder t) = fst (check_data_folder s) \<and>
         later_world (snd (check_data_folder s)) (snd (check_data_folder t))"
proof (cases "fs s ''data'' = None")
  case sa: True
  show ?thesis
  proof (cases "fs t ''data'' = None")
    case ta: True
    with sa assms have w: "writable t = writable s"
      by (auto simp: later_world_def)
    show ?thesis
    proof (cases "writable s")
      case True
      with w sa ta assms show ?thesis
        by (simp add: data_created) (simp add: later_world_def)
    next
      case False
      with w sa ta assms show ?thesis
        by (simp add: data_refused)
    qed
  next
    case tp: False
    with sa assms have w: "writable s"
      by (auto simp: later_world_def)
    from sa w tp assms show ?thesis
      by (simp add: data_created data_present) (auto simp: later_world_def)
  qed
next
  case sp: False
  with assms have tp: "fs t ''data'' \<noteq> None"
    by (auto simp: later_world_def)
  from sp tp assms show ?thesis
    by (simp add: data_present)
qed

lemma data_self: "later_world s (snd (check_data_folder s))"
  by (cases "fs s ''data'' = None"; cases "writable s")
     (simp_all add: data_created data_refused data_present later_world_refl, simp add: later_world_def)

lemma deps_world:
  "fs (snd (check_dependencies s)) = fs s"
  "writable (snd (check_dependencies s)) = writable s"
  "modules (snd (check_dependencies s)) = modules s"
  by (simp_all add: check_dependencies_def import_module_def Let_def
        split: import_outcome.splits option.splits)

lemma deps_result:
  "modules t = modules s \<Longrightarrow> fst (check_dependencies t) = fst (check_dependencies s)"
  by (simp add: check_dependencies_def import_module_def Let_def
        split: import_outcome.splits option.splits)

lemma deps_later:
  assumes "later_world s t"
  shows "fst (check_dependencies t) = fst (check_dependencies s) \<and>
         later_world (snd (check_dependencies s)) (snd (check_dependencies t))"
proof -
  from assms have "modules t = modules s"
    by (simp add: later_world_def)
  then have "fst (check_dependencies t) = fst (check_dependencies s)"
    by (rule deps_result)
  moreover from assms have "later_world (snd (check_dependencies s)) (snd (check_dependencies t))"
    by (simp add: later_world_def deps_world)
  ultimately show ?thesis ..
qed

lemma deps_self: "later_world s (snd (check_dependencies s))"
  by (simp add: later_world_def deps_world)

lemma run_checks_later:
  assumes "\<And>n c a b. (n, c) \<in> set cs \<Longrightarrow> later_world a b \<Longrightarrow>
             fst (c b) = fst (c a) \<and> later_world (snd (c a)) (snd (c b))"
      and "later_world s t"
  shows "fst (run_checks cs rs t) = fst (run_checks cs rs s) \<and>
         later_world (snd (run_checks cs rs s)) (snd (run_checks cs rs t))"
  using assms
proof (induction cs arbitrary: rs s t)
  case Nil
  then show ?case by simp
next
  case (Cons nc cs)
  obtain n c where nc: "nc = (n, c)" by (cases nc)
  from Cons.prems(1) [of n c s t] Cons.prems(2) nc
  have step: "fst (c t) = fst (c s)" "later_world (snd (c s)) (snd (c t))"
    by simp_all
  show ?case
  proof (cases "fst (c s)")
    case (Inl e)
    with step nc show ?thesis
      by (simp add: split_beta)
  next
    case (Inr b)
    have "fst (run_checks cs (rs @ [(n, b)]) (snd (c t))) =
          fst (run_checks cs (rs @ [(n, b)]) (snd (c s))) \<and>
          later_world (snd (run_checks cs (rs @ [(n, b)]) (snd (c s))))
            (snd (run_checks cs (rs @ [(n, b)]) (snd (c t))))"
      by (rule Cons.IH) (use Cons.prems(1) step(2) in auto)
    with Inr step nc show ?thesis
      by (simp add: split_beta)
  qed
qed

lemma run_checks_self:
  assumes "\<And>n c a. (n, c) \<in> set cs \<Longrightarrow> later_world a (snd (c a))"
  shows "later_world s (snd (run_checks cs rs s))"
  using assms
proof (induction cs arbitrary: rs s)
  case Nil
  show ?case by (simp add: later_world_refl)
next
  case (Cons nc cs)
  obtain n c where nc: "nc = (n, c)" by (cases nc)
  from Cons.prems [of n c s] nc have step: "later_world s (snd (c s))"
    by simp
  show ?case
  proof (cases "fst (c s)")
    case (Inl e)
    with step nc show ?thesis
      by (simp add: split_beta)
  next
    case (Inr b)
    have "later_world (snd (c s)) (snd (run_checks cs (rs @ [(n, b)]) (snd (c s))))"
      by (rule Cons.IH) (use Cons.prems in auto)
    with step have "later_world s (snd (run_checks cs (rs @ [(n, b)]) (snd (c s))))"
      by (rule later_world_trans)
    with Inr nc show ?thesis
      by (simp add: split_beta)
  qed
qed

lemma checks_later:
  assumes "(n, c) \<in> set checks" and "later_world a b"
  shows "fst (c b) = fst (c a) \<and> later_world (snd (c a)) (snd (c b))"
  using assms env_later files_later commands_later data_later deps_later
  by (auto simp: checks_def)

lemma checks_self:
  assumes "(n, c) \<in> set checks"
  shows "later_world a (snd (c a))"
  using assms env_self files_self commands_self data_self deps_self
  by (auto simp: checks_def)

lemma collect_results_later:
  assumes "later_world s t"
  shows "fst (collect_results t) = fst (collect_results s)"
proof -
  have "later_world (print rule60 (print (new_moon @ '' ATOMIC DARK EMPIRE BOT - VALIDATION'')
          (print rule60 s)))
        (print rule60 (print (new_moon @ '' ATOMIC DARK EMPIRE BOT - VALIDATION'')
          (print rule60 t)))"
    using assms by (simp add: print_def log_def)
  from run_checks_later [of checks, OF checks_later this]
  show ?thesis
    by (simp add: collect_results_def Let_def)
qed

lemma collect_results_self: "later_world s (snd (collect_results s))"
proof -
  have "later_world s (print rule60 (print (new_moon @ '' ATOMIC DARK EMPIRE BOT - VALIDATION'')
          (print rule60 s)))"
    by (simp add: print_def log_def later_world_refl)
  moreover have "later_world (print rule60 (print (new_moon @ '' ATOMIC DARK EMPIRE BOT - VALIDATION'')
          (print rule60 s))) (snd (collect_results s))"
    unfolding collect_results_def Let_def
    by (rule run_checks_self [of checks]) (rule checks_self)
  ultimately show ?thesis
    by (rule later_world_trans)
qed

lemma summarise_eq:
  "summarise results all_passed s =
     (all_passed \<and> (\<forall>r \<in> set results. snd r),
      s\<lparr>trace := trace s @
         map (\<lambda>r. Print ((if snd r then check_mark @ '' PASS'' else cross_mark @ '' FAIL'')
                          @ '' - '' @ fst r)) results\<rparr>)"
proof (induction results arbitrary: all_passed s)
  case Nil
  show ?case by simp
next
  case (Cons r results)
  obtain n b where r: "r = (n, b)" by (cases r)
  show ?case
    by (auto simp: r Cons print_def log_def Let_def)
qed

lemma report_eq:
  "report results s =
     ((\<forall>r \<in> set results. snd r),
      s\<lparr>trace := trace s @
         [Print (nl @ rule60), Print (bar_chart @ '' VALIDATION SUMMARY''), Print rule60] @
         map (\<lambda>r. Print ((if snd r then check_mark @ '' PASS'' else cross_mark @ '' FAIL'')
                          @ '' - '' @ fst r)) results @
         [Print rule60,
          Print (if (\<forall>r \<in> set results. snd r) then all_passed_line else some_failed_line),
          Print (if (\<forall>r \<in> set results. snd r) then start_bot_line else install_line),
          Print rule60]\<rparr>)"
  by (simp add: report_def summarise_eq print_def log_def Let_def)

lemma report_later: "later_world s (snd (report results s))"
  by (simp add: report_eq later_world_refl)

lemma main_self: "later_world s (snd (main s))"
proof (cases "collect_results s")
  case (Pair r s1)
  with collect_results_self [of s] have l: "later_world s s1" by simp
  show ?thesis
  proof (cases r)
    case (Inl e)
    with Pair l show ?thesis by (simp add: main_def)
  next
    case (Inr rs)
    with Pair l show ?thesis by (simp add: main_def report_eq)
  qed
qed

lemma verdict_eq:
  "verdict s = (case fst (collect_results s) of Inl e \<Rightarrow> Inl e
                | Inr results \<Rightarrow> Inr (\<forall>r \<in> set results. snd r))"
  by (simp add: verdict_def report_eq split: prod.splits sum.splits)

subsection \<open>What a run prints\<close>

lemma env_starts:
  "\<exists>evs. trace (snd (check_env_file a)) =
     trace a @ Print (nl @ file_folder @ '' Checking .env file...'') # evs"
  by (cases rule: env_cases [of a]) (simp_all add: env_absent env_dir env_file Let_def)

lemma files_starts:
  "\<exists>evs. trace (snd (check_required_files a)) =
     trace a @ Print (nl @ open_file_folder @ '' Checking required files...'') # evs"
  by (simp add: required_files_eq)

lemma commands_starts:
  "\<exists>evs. trace (snd (check_commands_folder a)) =
     trace a @ Print (nl @ package @ '' Checking commands folder...'') # evs"
  by (cases "fs a ''commands'' = None") (simp_all add: commands_absent commands_present)

lemma data_starts:
  "\<exists>evs. trace (snd (check_data_folder a)) =
     trace a @ Print (nl @ floppy_disk @ '' Checking data folder...'') # evs"
  by (cases "fs a ''data'' = None"; cases "writable a")
     (simp_all add: data_created data_refused data_present)

lemma deps_starts:
  "\<exists>evs. trace (snd (check_dependencies a)) =
     trace a @ Print (nl @ books @ '' Checking Python dependencies...'') # evs"
  by (simp add: check_dependencies_def import_module_def print_def log_def Let_def
        split: import_outcome.splits option.splits)

lemma run_checks_emits:
  assumes starts: "\<And>nc a. nc \<in> set cs \<Longrightarrow>
             \<exists>evs. trace (snd (snd nc a)) = trace a @ Print (h (fst nc)) # evs"
      and fin: "fst (run_checks cs rs s) = Inr rs'"
  shows "\<exists>evs. trace (snd (run_checks cs rs s)) = trace s @ evs \<and>
               (\<forall>nc \<in> set cs. Print (h (fst nc)) \<in> set evs)"
  using assms
proof (induction cs arbitrary: rs s)
  case Nil
  show ?case by simp
next
  case (Cons nc cs)
  obtain n c where nc: "nc = (n, c)" by (cases nc)
  from Cons.prems(1) [of nc s] nc
  obtain evs where evs: "trace (snd (c s)) = trace s @ Print (h n) # evs"
    by auto
  from Cons.prems(2) nc obtain b where b: "fst (c s) = Inr b"
    by (cases "fst (c s)") (simp_all add: split_beta)
  with Cons.prems(2) nc
  have fin': "fst (run_checks cs (rs @ [(n, b)]) (snd (c s))) = Inr rs'"
    by (simp add: split_beta)
  have "\<exists>evs'. trace (snd (run_checks cs (rs @ [(n, b)]) (snd (c s)))) =
            trace (snd (c s)) @ evs' \<and> (\<forall>nc \<in> set cs. Print (h (fst nc)) \<in> set evs')"
    by (rule Cons.IH [OF _ fin']) (simp add: Cons.prems(1))
  then obtain evs' where evs':
    "trace (snd (run_checks cs (rs @ [(n, b)]) (snd (c s)))) = trace (snd (c s)) @ evs'"
    "\<forall>nc \<in> set cs. Print (h (fst nc)) \<in> set evs'"
    by blast
  have 1: "trace (snd (run_checks (nc # cs) rs s)) = trace s @ (Print (h n) # evs @ evs')"
    using b evs evs'(1) nc by (simp add: split_beta)
  have 2: "\<forall>x \<in> set (nc # cs). Print (h (fst x)) \<in> set (Print (h n) # evs @ evs')"
    using evs'(2) nc by simp
  from 1 2 show ?case
    by (intro exI [of _ "Print (h n) # evs @ evs'"] conjI)
qed

lemma check_header_simps:
  "check_header ''Environment File'' = nl @ file_folder @ '' Checking .env file...''"
  "check_header ''Required Files'' = nl @ open_file_folder @ '' Checking required files...''"
  "check_header ''Commands Modules'' = nl @ package @ '' Checking commands folder...''"
  "check_header ''Data Folder'' = nl @ floppy_disk @ '' Checking data folder...''"
  "check_header ''Dependencies'' = nl @ books @ '' Checking Python dependencies...''"
  by (simp_all add: check_header_def)

lemma checks_start:
  assumes "nc \<in> set checks"
  shows "\<exists>evs. trace (snd (snd nc a)) = trace a @ Print (check_header (fst nc)) # evs"
proof -
  from assms have "nc = (''Environment File'', check_env_file) \<or>
      nc = (''Required Files'', check_required_files) \<or>
      nc = (''Commands Modules'', check_commands_folder) \<or>
      nc = (''Data Folder'', check_data_folder) \<or>
      nc = (''Dependencies'', check_dependencies)"
    unfolding checks_def by (simp only: list.set insert_iff empty_iff simp_thms)
  then show ?thesis
  proof (elim disjE)
    assume "nc = (''Environment File'', check_env_file)"
    then show ?thesis using env_starts [of a] by (simp only: fst_conv snd_conv check_header_simps)
  next
    assume "nc = (''Required Files'', check_required_files)"
    then show ?thesis using files_starts [of a] by (simp only: fst_conv snd_conv check_header_simps)
  next
    assume "nc = (''Commands Modules'', check_commands_folder)"
    then show ?thesis using commands_starts [of a] by (simp only: fst_conv snd_conv check_header_simps)
  next
    assume "nc = (''Data Folder'', check_data_folder)"
    then show ?thesis using data_starts [of a] by (simp only: fst_conv snd_conv check_header_simps)
  next
    assume "nc = (''Dependencies'', check_dependencies)"
    then show ?thesis using deps_starts [of a] by (simp only: fst_conv snd_conv check_header_simps)
  qed
qed


subsection \<open>The results of a run that no check ends\<close>






lemmas check_defs = check_env_file_def check_required_files_def check_commands_folder_def
  check_data_folder_def check_dependencies_def path_exists_def open_read_def mkdir_def
  import_module_def print_def log_def Let_def required_vars_def required_files_def
  required_commands_def path_join_def

lemmas run_defs = verdict_def main_def exit_status_def emitted_def collect_results_def
  report_def checks_def fresh_def

section \<open>The run as a whole\<close>




text \<open>
  Claim C7. The results of the five checks and the verdict depend on the entries of the
  working directory, on whether it accepts a new entry and on the libraries only: two
  states that agree on these give the same results, whatever was printed before. And a
  second run, started after \<open>main\<close> has finished on what it left behind, gives the
  results and the verdict of the first (or ends with the same exception).
\<close>

theorem validator_idempotent:
  "(fs t = fs s \<and> writable t = writable s \<and> modules t = modules s \<longrightarrow>
      fst (collect_results t) = fst (collect_results s) \<and> verdict t = verdict s) \<and>
   fst (collect_results (fresh (snd (main s)))) = fst (collect_results s) \<and>
   verdict (fresh (snd (main s))) = verdict s"
proof (intro conjI impI)
  assume "fs t = fs s \<and> writable t = writable s \<and> modules t = modules s"
  then have "later_world s t"
    by (simp add: later_world_def)
  then show "fst (collect_results t) = fst (collect_results s)"
    by (rule collect_results_later)
  then show "verdict t = verdict s"
    by (simp add: verdict_eq)
next
  have "later_world s (fresh (snd (main s)))"
    by (simp add: main_self)
  then show "fst (collect_results (fresh (snd (main s)))) = fst (collect_results s)"
    by (rule collect_results_later)
  then show "verdict (fresh (snd (main s))) = verdict s"
    by (simp add: verdict_eq)
qed

theorem validator_idempotent_witness:
  "fst (collect_results
     \<lparr>fs = [''bot.py'' \<mapsto> File ''import discord''], writable = True,
      modules = (\<lambda>_. Raises ImportError), trace = [Print ''earlier output'']\<rparr>) =
   fst (collect_results
     \<lparr>fs = [''bot.py'' \<mapsto> File ''import discord''], writable = True,
      modules = (\<lambda>_. Raises ImportError), trace = []\<rparr>) \<and>
   fs (snd (main
     \<lparr>fs = [''bot.py'' \<mapsto> File ''import discord''], writable = True,
      modules = (\<lambda>_. Raises ImportError), trace = []\<rparr>)) ''data'' = Some Dir \<and>
   fst (collect_results (fresh (snd (main
     \<lparr>fs = [''bot.py'' \<mapsto> File ''import discord''], writable = True,
      modules = (\<lambda>_. Raises ImportError), trace = []\<rparr>)))) =
     Inr [(''Environment File'', False), (''Required Files'', False),
          (''Commands Modules'', False), (''Data Folder'', True), (''Dependencies'', False)]"
proof -
  let ?s = "\<lparr>fs = [''bot.py'' \<mapsto> File ''import discord''], writable = True,
      modules = (\<lambda>_. Raises ImportError), trace = []\<rparr>"
  let ?t = "\<lparr>fs = [''bot.py'' \<mapsto> File ''import discord''], writable = True,
      modules = (\<lambda>_. Raises ImportError), trace = [Print ''earlier output'']\<rparr>"
  have same: "fs ?t = fs ?s \<and> writable ?t = writable ?s \<and> modules ?t = modules ?s"
    by simp
  have first: "fst (collect_results ?s) =
     Inr [(''Environment File'', False), (''Required Files'', False),
          (''Commands Modules'', False), (''Data Folder'', True), (''Dependencies'', False)]"
    by (simp add: run_defs check_defs)
  have made: "fs (snd (main ?s)) ''data'' = Some Dir"
    by (simp add: run_defs check_defs)
  from validator_idempotent [of ?t ?s] same first made show ?thesis
    by simp
qed

text \<open>
  Claim C8. Whenever the run reaches a verdict, pass or fail, \<open>main\<close> returns and the
  exit status is 0; what tells a failure from a success is the guidance printed last,
  before the closing rule.
\<close>

theorem main_returns_normally:
  assumes "verdict s = Inr v"
  shows "fst (main s) = Inr () \<and> exit_status s = 0 \<and>
         take 3 (rev (emitted main s)) =
           [Print rule60,
            Print (if v then start_bot_line else install_line),
            Print (if v then all_passed_line else some_failed_line)]"
proof -
  from assms obtain rs where rs: "fst (collect_results s) = Inr rs"
    and v: "v = (\<forall>r \<in> set rs. snd r)"
    by (auto simp: verdict_eq split: sum.splits)
  obtain s1 where cr: "collect_results s = (Inr rs, s1)"
    using rs by (cases "collect_results s") simp
  have m: "main s = (Inr (), snd (report rs s1))"
    by (simp add: main_def cr)
  have "\<exists>evs. trace s1 = trace s @ evs"
  proof -
    let ?s3 = "print rule60 (print (new_moon @ '' ATOMIC DARK EMPIRE BOT - VALIDATION'')
          (print rule60 s))"
    from rs have fin: "fst (run_checks checks [] ?s3) = Inr rs"
      by (simp add: collect_results_def Let_def)
    have "\<exists>evs. trace (snd (run_checks checks [] ?s3)) = trace ?s3 @ evs \<and>
               (\<forall>nc \<in> set checks. Print (check_header (fst nc)) \<in> set evs)"
      using checks_start fin by (rule run_checks_emits)
    then obtain evs where "trace (snd (run_checks checks [] ?s3)) = trace ?s3 @ evs"
      by blast
    moreover have "s1 = snd (run_checks checks [] ?s3)"
      using cr by (simp add: collect_results_def Let_def)
    ultimately show ?thesis
      by simp
  qed
  then obtain evs where evs: "trace s1 = trace s @ evs"
    by blast
  have "emitted main s = evs @
         [Print (nl @ rule60), Print (bar_chart @ '' VALIDATION SUMMARY''), Print rule60] @
         map (\<lambda>r. Print ((if snd r then check_mark @ '' PASS'' else cross_mark @ '' FAIL'')
                          @ '' - '' @ fst r)) rs @
         [Print rule60,
          Print (if v then all_passed_line else some_failed_line),
          Print (if v then start_bot_line else install_line),
          Print rule60]"
    by (rule emitted_eq) (simp add: m report_eq evs v)
  then have "take 3 (rev (emitted main s)) =
           [Print rule60,
            Print (if v then start_bot_line else install_line),
            Print (if v then all_passed_line else some_failed_line)]"
    by simp
  with m show ?thesis
    by (simp add: exit_status_def)
qed

theorem main_returns_normally_witness:
  "exit_status
     \<lparr>fs = Map.empty, writable = True, modules = (\<lambda>_. Raises ImportError), trace = []\<rparr> = 0 \<and>
   take 3 (rev (emitted main
     \<lparr>fs = Map.empty, writable = True, modules = (\<lambda>_. Raises ImportError), trace = []\<rparr>)) =
     [Print rule60, Print install_line, Print some_failed_line] \<and>
   exit_status
     \<lparr>fs = [''.env'' \<mapsto> File ''DISCORD_TOKEN=x OWNER_ID=1 PREFIX=!'',
            ''bot.py'' \<mapsto> File '''', ''data_manager.py'' \<mapsto> File '''',
            ''requirements.txt'' \<mapsto> File '''', ''commands'' \<mapsto> Dir,
            ''commands/economy.py'' \<mapsto> File '''', ''commands/teams.py'' \<mapsto> File '''',
            ''commands/marketplace.py'' \<mapsto> File '''',
            ''commands/moderation.py'' \<mapsto> File '''',
            ''commands/server_build.py'' \<mapsto> File '''',
            ''commands/help_admin.py'' \<mapsto> File '''', ''data'' \<mapsto> Dir],
      writable = True, modules = (\<lambda>_. Loaded (Some ''2.3.2'')), trace = []\<rparr> = 0 \<and>
   take 3 (rev (emitted main
     \<lparr>fs = [''.env'' \<mapsto> File ''DISCORD_TOKEN=x OWNER_ID=1 PREFIX=!'',
            ''bot.py'' \<mapsto> File '''', ''data_manager.py'' \<mapsto> File '''',
            ''requirements.txt'' \<mapsto> File '''', ''commands'' \<mapsto> Dir,
            ''commands/economy.py'' \<mapsto> File '''', ''commands/teams.py'' \<mapsto> File '''',
            ''commands/marketplace.py'' \<mapsto> File '''',
            ''commands/moderation.py'' \<mapsto> File '''',
            ''commands/server_build.py'' \<mapsto> File '''',
            ''commands/help_admin.py'' \<mapsto> File '''', ''data'' \<mapsto> Dir],
      writable = True, modules = (\<lambda>_. Loaded (Some ''2.3.2'')), trace = []\<rparr>)) =
     [Print rule60, Print start_bot_line, Print all_passed_line]"
proof -
  let ?bad = "\<lparr>fs = Map.empty, writable = True, modules = (\<lambda>_. Raises ImportError),
      trace = []\<rparr>"
  let ?good = "\<lparr>fs = [''.env'' \<mapsto> File ''DISCORD_TOKEN=x OWNER_ID=1 PREFIX=!'',
            ''bot.py'' \<mapsto> File '''', ''data_manager.py'' \<mapsto> File '''',
            ''requirements.txt'' \<mapsto> File '''', ''commands'' \<mapsto> Dir,
            ''commands/economy.py'' \<mapsto> File '''', ''commands/teams.py'' \<mapsto> File '''',
            ''commands/marketplace.py'' \<mapsto> File '''',
            ''commands/moderation.py'' \<mapsto> File '''',
            ''commands/server_build.py'' \<mapsto> File '''',
            ''commands/help_admin.py'' \<mapsto> File '''', ''data'' \<mapsto> Dir],
      writable = True, modules = (\<lambda>_. Loaded (Some ''2.3.2'')), trace = []\<rparr>"
  have bad: "verdict ?bad = Inr False"
    by (simp add: verdict_eq collect_results_def checks_def check_defs)
  have good: "verdict ?good = Inr True"
    by (simp add: verdict_eq collect_results_def checks_def check_defs)
  from main_returns_normally [OF bad] main_returns_normally [OF good] show ?thesis
    by simp
qed

section \<open>Which checks can raise\<close>




end
